theory Spec2Isabelle
  imports Complex_Main
begin

section \<open>Face redaction sample: the model of \<^verbatim>\<open>src/index.js\<close>\<close>

text \<open>
  The script glues a PDF viewer (WebViewer) to a face detector (face-api.js). Its own
  logic is the annotation builder \<^verbatim>\<open>createFaceRedactionAnnotation\<close>, the page pipeline
  \<^verbatim>\<open>detectAndRedactFacesFromPage\<close> and the page sweep \<^verbatim>\<open>onRedactFacesButtonClick\<close>.
  Both libraries are outside the repository: what they return is a parameter of the
  model (the record \<open>externals\<close>), and what the script does to the viewer is explicit
  state (the record \<open>viewer\<close>).

  JavaScript numbers are IEEE doubles. The script only adds coordinates, so the
  coordinate type is a type variable of class \<open>plus\<close>: what is proved of the builder
  holds for any addition, rounded or exact. The two decimal literals of the script
  (\<^verbatim>\<open>0.5\<close>, \<^verbatim>\<open>0.40\<close>) are rationals.
\<close>

subsection \<open>Data\<close>

text \<open>\<^verbatim>\<open>detection.box\<close>: the fields the script reads (\<^verbatim>\<open>x\<close>, \<^verbatim>\<open>y\<close>, \<^verbatim>\<open>width\<close>, \<^verbatim>\<open>height\<close>).\<close>

record 'a Box =
  box_x :: 'a
  box_y :: 'a
  box_width :: 'a
  box_height :: 'a

text \<open>\<^verbatim>\<open>{ width, height }\<close>: the page's size (\<^verbatim>\<open>displaySize\<close>) or an image's size.\<close>

record 'a Dimensions =
  dim_width :: 'a
  dim_height :: 'a

text \<open>
  A face-api.js \<^verbatim>\<open>FaceDetection\<close>: its box, its confidence and the size of the image the
  box refers to.
\<close>

record 'a FaceDetection =
  box :: "'a Box"
  score :: 'a
  imageDims :: "'a Dimensions"

text \<open>
  \<^verbatim>\<open>new Annotations.Quad(x1, y1, x2, y2, x3, y3, x4, y4)\<close>: four points, in the order of
  the constructor's arguments.
\<close>

datatype 'a Quad = Quad (x1: 'a) (y1: 'a) (x2: 'a) (y2: 'a) (x3: 'a) (y3: 'a) (x4: 'a) (y4: 'a)

text \<open>\<^verbatim>\<open>new Annotations.Color(r, g, b, a)\<close>.\<close>

datatype Color = Color nat nat nat nat

text \<open>
  The \<^verbatim>\<open>RedactionAnnotation\<close> as it is when it is added: built from \<^verbatim>\<open>{ Quads: quads }\<close>,
  then \<^verbatim>\<open>Author\<close>, \<^verbatim>\<open>PageNumber\<close> and \<^verbatim>\<open>StrokeColor\<close> assigned.
\<close>

record 'a RedactionAnnotation =
  Quads :: "'a Quad list"
  Author :: string
  PageNumber :: nat
  StrokeColor :: Color

text \<open>
  The third argument of \<^verbatim>\<open>createFaceRedactionAnnotation\<close> as JavaScript can pass it:
  \<^verbatim>\<open>undefined\<close>, \<^verbatim>\<open>null\<close> or an array.
\<close>

datatype 'd argument = Undefined | Null | Array "'d list"

text \<open>\<^verbatim>\<open>new faceapi.SsdMobilenetv1Options({ minConfidence, maxResults })\<close>.\<close>

record SsdMobilenetv1Options =
  minConfidence :: rat
  maxResults :: nat

text \<open>
  The script defines no error type: a failure is whatever exception a library throws.
  The names are those of the specification's taxonomy.
\<close>

datatype error = RenderFailure | ModelNotReady | DetectionFailure

text \<open>
  The calls the script makes to its collaborators, in the order it makes them.
  \<^verbatim>\<open>createProgress\<close> and the three functions it returns are not defined in
  \<^verbatim>\<open>src/index.js\<close>; they are recorded as calls and nothing else is known of them.
\<close>

datatype call =
    CreateProgress nat
  | ShowProgress
  | SendPageProcessing
  | HideProgress
  | LoadCanvas nat rat
  | DetectAllFaces SsdMobilenetv1Options
  | AddAnnotation nat
  | RedrawAnnotation nat

text \<open>
  What the script reads from its collaborators. \<open>loadCanvas\<close> either throws (\<open>Inl\<close>) or
  hands a canvas to \<^verbatim>\<open>drawComplete\<close>; \<open>detectAllFaces\<close> is a promise that either
  rejects (\<open>Inl\<close>) or resolves to detections.
\<close>

record ('a, 'c) externals =
  getCurrentUser :: string
  getPageCount :: nat
  getPageInfo :: "nat \<Rightarrow> 'a Dimensions"
  loadCanvas :: "nat \<Rightarrow> rat \<Rightarrow> error + 'c"
  detectAllFaces :: "'c \<Rightarrow> SsdMobilenetv1Options \<Rightarrow> error + 'a FaceDetection list"
  resizeResults :: "'a FaceDetection list \<Rightarrow> 'a Dimensions \<Rightarrow> 'a FaceDetection list"

text \<open>
  What the script changes: the annotation manager's store, in insertion order, and the
  log of calls.
\<close>

record 'a viewer =
  annotations :: "'a RedactionAnnotation list"
  calls :: "call list"

subsection \<open>The annotation builder\<close>

text \<open>
  The body of the \<^verbatim>\<open>map\<close> callback: the four corners of the box, passed to the \<^verbatim>\<open>Quad\<close>
  constructor as \<^verbatim>\<open>...bottomLeft, ...bottomRight, ...topRight, ...topLeft\<close>.
\<close>

definition quadOf :: "'a::plus FaceDetection \<Rightarrow> 'a Quad" where
  "quadOf detection =
     (let x = box_x (box detection);
          y = box_y (box detection);
          width = box_width (box detection);
          height = box_height (box detection);
          topLeft = (x, y);
          topRight = (x + width, y);
          bottomLeft = (x, y + height);
          bottomRight = (x + width, y + height)
      in Quad (fst bottomLeft) (snd bottomLeft) (fst bottomRight) (snd bottomRight)
              (fst topRight) (snd topRight) (fst topLeft) (snd topLeft))"

text \<open>
  \<^verbatim>\<open>if (faceDetections && faceDetections.length > 0)\<close>: \<^verbatim>\<open>undefined\<close> and \<^verbatim>\<open>null\<close> are
  falsy, every array is truthy, also the empty one, which the length test excludes.
\<close>

fun createFaceRedactionAnnotation ::
  "('a::plus, 'c) externals \<Rightarrow> nat \<Rightarrow> 'a FaceDetection argument \<Rightarrow> 'a viewer \<Rightarrow> 'a viewer"
where
  "createFaceRedactionAnnotation env pageNumber Undefined st = st"
| "createFaceRedactionAnnotation env pageNumber Null st = st"
| "createFaceRedactionAnnotation env pageNumber (Array faceDetections) st =
     (if length faceDetections > 0 then
        let quads = map quadOf faceDetections;
            faceAnnotation = \<lparr>Quads = quads, Author = getCurrentUser env,
              PageNumber = pageNumber, StrokeColor = Color 255 0 0 1\<rparr>
        in st\<lparr>annotations := annotations st @ [faceAnnotation],
                calls := calls st @ [AddAnnotation pageNumber, RedrawAnnotation pageNumber]\<rparr>
      else st)"

subsection \<open>The page pipeline\<close>

text \<open>
  How a promise of the script ends: resolved, rejected with an error, or never settled.
  \<open>Pending e\<close> is a promise that stays pending because the error \<open>e\<close> was raised where nothing
  connects it to the promise.
\<close>

datatype promise = Resolved | Rejected error | Pending error

text \<open>
  \<^verbatim>\<open>convertCanvasToImage\<close>: the canvas re-encoded as a JPEG data URL and loaded into an
  image. The pixels are opaque to the model, so the image is the canvas; the promise
  resolves when the image has loaded.
\<close>

definition convertCanvasToImage :: "'c \<Rightarrow> 'c" where
  "convertCanvasToImage canvas = canvas"

text \<open>
  The \<^verbatim>\<open>drawComplete\<close> callback of \<^verbatim>\<open>detectAndRedactFacesFromPage\<close>. Its work runs inside
  \<^verbatim>\<open>convertCanvasToImage(canvas).then(async (image) => ...)\<close>. The promise that \<^verbatim>\<open>then\<close>
  returns is dropped and \<^verbatim>\<open>reject\<close> is never called, so when
  \<^verbatim>\<open>await faceapi.detectAllFaces\<close> throws, \<^verbatim>\<open>resolve()\<close> is not reached and the page's
  promise stays pending. Otherwise the detections are resized, handed to the builder,
  and the promise resolves.
\<close>

definition drawComplete ::
  "('a::plus, 'c) externals \<Rightarrow> nat \<Rightarrow> 'a Dimensions \<Rightarrow> 'c \<Rightarrow> 'a viewer \<Rightarrow> promise \<times> 'a viewer"
where
  "drawComplete env pageNumber displaySize canvas st =
     (let img = convertCanvasToImage canvas;
          options = \<lparr>minConfidence = 2/5, maxResults = 300\<rparr>;
          st' = st\<lparr>calls := calls st @ [DetectAllFaces options]\<rparr>
      in case detectAllFaces env img options of
           Inl e \<Rightarrow> (Pending e, st')
         | Inr detections \<Rightarrow>
             (let resizedDetections = resizeResults env detections displaySize
              in (Resolved,
                  createFaceRedactionAnnotation env pageNumber (Array resizedDetections) st')))"

text \<open>
  \<^verbatim>\<open>detectAndRedactFacesFromPage\<close>: the executor of \<^verbatim>\<open>new Promise(function(resolve, reject)\<close>.
  An exception thrown by \<^verbatim>\<open>doc.loadCanvas\<close> leaves the executor, and the promise is
  rejected with it; otherwise the canvas reaches \<^verbatim>\<open>drawComplete\<close>. The zoom is the
  literal \<^verbatim>\<open>0.5\<close>.
\<close>

definition detectAndRedactFacesFromPage ::
  "('a::plus, 'c) externals \<Rightarrow> nat \<Rightarrow> 'a viewer \<Rightarrow> promise \<times> 'a viewer"
where
  "detectAndRedactFacesFromPage env pageNumber st =
     (let pageInfo = getPageInfo env pageNumber;
          displaySize = \<lparr>dim_width = dim_width pageInfo, dim_height = dim_height pageInfo\<rparr>;
          st' = st\<lparr>calls := calls st @ [LoadCanvas pageNumber (1/2)]\<rparr>
      in case loadCanvas env pageNumber (1/2) of
           Inl e \<Rightarrow> (Rejected e, st')
         | Inr canvas \<Rightarrow> drawComplete env pageNumber displaySize canvas st')"

subsection \<open>The page sweep\<close>

text \<open>
  The loop of \<^verbatim>\<open>onRedactFacesButtonClick\<close>, from \<open>pageNumber\<close> on:
  \<^verbatim>\<open>for (...; pageNumber <= numberOfPages; pageNumber++) { sendPageProcessing(); await ... }\<close>.
  \<^verbatim>\<open>await\<close> on a rejected promise throws and ends the handler; on a promise that never
  settles the handler never resumes.
\<close>

function sweepFrom ::
  "('a::plus, 'c) externals \<Rightarrow> nat \<Rightarrow> nat \<Rightarrow> 'a viewer \<Rightarrow> promise \<times> 'a viewer"
where
  "sweepFrom env numberOfPages pageNumber st =
     (if pageNumber \<le> numberOfPages then
        (case detectAndRedactFacesFromPage env pageNumber
                (st\<lparr>calls := calls st @ [SendPageProcessing]\<rparr>) of
           (Resolved, st') \<Rightarrow> sweepFrom env numberOfPages (pageNumber + 1) st'
         | (Rejected e, st') \<Rightarrow> (Rejected e, st')
         | (Pending e, st') \<Rightarrow> (Pending e, st'))
      else (Resolved, st))"
  by pat_completeness auto
termination
  by (relation "measure (\<lambda>(env, numberOfPages, pageNumber, st). numberOfPages + 1 - pageNumber)")
     auto

declare sweepFrom.simps [simp del]

text \<open>
  \<^verbatim>\<open>onRedactFacesButtonClick\<close>, the async click handler. Its result is how the promise it
  returns to the button ends. \<^verbatim>\<open>hideProgress()\<close> is reached only when the loop ends
  normally.
\<close>

definition onRedactFacesButtonClick ::
  "('a::plus, 'c) externals \<Rightarrow> 'a viewer \<Rightarrow> promise \<times> 'a viewer"
where
  "onRedactFacesButtonClick env st =
     (let numberOfPages = getPageCount env;
          st1 = st\<lparr>calls := calls st @ [CreateProgress numberOfPages, ShowProgress]\<rparr>
      in case sweepFrom env numberOfPages 1 st1 of
           (Resolved, st') \<Rightarrow> (Resolved, st'\<lparr>calls := calls st' @ [HideProgress]\<rparr>)
         | (Rejected e, st') \<Rightarrow> (Rejected e, st')
         | (Pending e, st') \<Rightarrow> (Pending e, st'))"

subsection \<open>The top level of the script\<close>

text \<open>
  The last lines of the script start the model load
  (\<^verbatim>\<open>faceapi.nets.ssdMobilenetv1.loadFromUri('/models')\<close>, whose promise is dropped) and
  start the viewer (\<^verbatim>\<open>WebViewer(...).then(...)\<close>, whose callback registers the button).
  What happens afterwards is a sequence of occurrences: the model load completes, the
  viewer becomes ready, the user clicks the button.
\<close>

datatype occurrence = ModelLoadCompletes | ViewerReady | ButtonClick

record 'a process =
  modelLoadsStarted :: nat
  modelLoaded :: bool
  buttonRegistered :: bool
  view :: "'a viewer"
  outcomes :: "promise list"

definition startup :: "'a process" where
  "startup = \<lparr>modelLoadsStarted = 1, modelLoaded = False, buttonRegistered = False,
     view = \<lparr>annotations = [], calls = []\<rparr>, outcomes = []\<rparr>"

text \<open>
  One occurrence. \<open>world loaded\<close> is what the collaborators answer while the model is
  loaded or not. Nothing in the script makes a click wait for the model load.
\<close>

fun occur :: "(bool \<Rightarrow> ('a::plus, 'c) externals) \<Rightarrow> 'a process \<Rightarrow> occurrence \<Rightarrow> 'a process" where
  "occur world s ModelLoadCompletes = s\<lparr>modelLoaded := True\<rparr>"
| "occur world s ViewerReady = s\<lparr>buttonRegistered := True\<rparr>"
| "occur world s ButtonClick =
     (if buttonRegistered s then
        (case onRedactFacesButtonClick (world (modelLoaded s)) (view s) of
           (r, v) \<Rightarrow> s\<lparr>view := v, outcomes := outcomes s @ [r]\<rparr>)
      else s)"

definition run :: "(bool \<Rightarrow> ('a::plus, 'c) externals) \<Rightarrow> occurrence list \<Rightarrow> 'a process" where
  "run world occs = foldl (occur world) startup occs"

subsection \<open>The collaborators as the specification describes them\<close>

text \<open>
  A document and what the detection network finds on its pages: the input of the
  collaborators below. \<open>found p\<close> is the network's answer for the raster of page \<open>p\<close>:
  a failure, or candidate boxes in raster space with their confidence.
\<close>

record document =
  user :: string
  pageCount :: nat
  pageSize :: "nat \<Rightarrow> rat Dimensions"
  renderError :: "nat \<Rightarrow> error option"
  found :: "nat \<Rightarrow> error + (rat Box \<times> rat) list"

text \<open>A page raster: the page it shows and its size in pixels.\<close>

record raster =
  rasterPage :: nat
  rasterDims :: "rat Dimensions"

text \<open>
  Modelled from the spec: \<^verbatim>\<open>doc.loadCanvas\<close> belongs to the viewer SDK, which is not under
  \<^verbatim>\<open>src/\<close>. The specification's rasterizer returns a bitmap of the page at the zoom
  factor, or fails with \<open>RenderFailure\<close> when the page cannot be rasterized. The failure
  is modelled as an exception of the call.
\<close>

definition specLoadCanvas :: "document \<Rightarrow> nat \<Rightarrow> rat \<Rightarrow> error + raster" where
  "specLoadCanvas doc pageNumber zoom =
     (case renderError doc pageNumber of
        Some e \<Rightarrow> Inl e
      | None \<Rightarrow> Inr \<lparr>rasterPage = pageNumber,
          rasterDims = \<lparr>dim_width = zoom * dim_width (pageSize doc pageNumber),
                        dim_height = zoom * dim_height (pageSize doc pageNumber)\<rparr>\<rparr>)"

text \<open>
  Modelled from the spec: \<^verbatim>\<open>faceapi.detectAllFaces\<close> belongs to face-api.js, which is not
  under \<^verbatim>\<open>src/\<close>. The specification's detector fails with \<open>ModelNotReady\<close> when the model
  is not loaded, filters the boxes below the minimum confidence, and caps the number of
  results; its detections are in raster space.
\<close>

definition specDetectAllFaces ::
  "document \<Rightarrow> bool \<Rightarrow> raster \<Rightarrow> SsdMobilenetv1Options \<Rightarrow> error + rat FaceDetection list"
where
  "specDetectAllFaces doc loaded img options =
     (if \<not> loaded then Inl ModelNotReady
      else case found doc (rasterPage img) of
          Inl e \<Rightarrow> Inl e
        | Inr candidates \<Rightarrow>
            Inr (take (maxResults options)
              (filter (\<lambda>d. minConfidence options \<le> score d)
                (map (\<lambda>(b, s). \<lparr>box = b, score = s, imageDims = rasterDims img\<rparr>)
                   candidates))))"

text \<open>
  Modelled from the spec: the rescaling into document space, which the specification
  defines as dividing each coordinate and dimension of the box by the zoom factor.
\<close>

definition resizeBox :: "rat \<Rightarrow> rat Box \<Rightarrow> rat Box" where
  "resizeBox zoomFactor b =
     \<lparr>box_x = box_x b / zoomFactor, box_y = box_y b / zoomFactor,
      box_width = box_width b / zoomFactor, box_height = box_height b / zoomFactor\<rparr>"

text \<open>
  Modelled from the spec: the same rescaling as a machine computes it, each quotient
  rounded by \<open>rnd\<close>. With the identity for \<open>rnd\<close> it is \<open>resizeBox\<close>.
\<close>

definition roundedResizeBox :: "(rat \<Rightarrow> rat) \<Rightarrow> rat \<Rightarrow> rat Box \<Rightarrow> rat Box" where
  "roundedResizeBox rnd zoomFactor b =
     \<lparr>box_x = rnd (box_x b / zoomFactor), box_y = rnd (box_y b / zoomFactor),
      box_width = rnd (box_width b / zoomFactor), box_height = rnd (box_height b / zoomFactor)\<rparr>"

text \<open>
  Modelled from the spec: \<^verbatim>\<open>faceapi.resizeResults\<close> belongs to face-api.js, which is not
  under \<^verbatim>\<open>src/\<close>. The script passes it the page's size, not the zoom factor; the zoom
  factor used during rasterization is the ratio of the size of the image a detection
  refers to and the page's size, and the box is divided by it.
\<close>

definition specResizeResults ::
  "rat FaceDetection list \<Rightarrow> rat Dimensions \<Rightarrow> rat FaceDetection list"
where
  "specResizeResults detections displaySize =
     map (\<lambda>d. d\<lparr>box := resizeBox (dim_width (imageDims d) / dim_width displaySize) (box d),
               imageDims := displaySize\<rparr>) detections"

definition specExternals :: "document \<Rightarrow> bool \<Rightarrow> (rat, raster) externals" where
  "specExternals doc loaded =
     \<lparr>getCurrentUser = user doc, getPageCount = pageCount doc, getPageInfo = pageSize doc,
      loadCanvas = specLoadCanvas doc, detectAllFaces = specDetectAllFaces doc loaded,
      resizeResults = specResizeResults\<rparr>"

subsection \<open>Observations\<close>

text \<open>The points of a quad, in the order the constructor received them.\<close>

definition quadPoints :: "'a Quad \<Rightarrow> ('a \<times> 'a) list" where
  "quadPoints q = [(x1 q, y1 q), (x2 q, y2 q), (x3 q, y3 q), (x4 q, y4 q)]"

text \<open>
  What one page does, seen from a viewer with an empty store and an empty log: how its
  promise ends, the markers it commits and the calls it makes.
\<close>

definition blank :: "'a viewer" where
  "blank = \<lparr>annotations = [], calls = []\<rparr>"

definition pageOutcome :: "('a::plus, 'c) externals \<Rightarrow> nat \<Rightarrow> promise" where
  "pageOutcome env p = fst (detectAndRedactFacesFromPage env p blank)"

definition pageMarkers :: "('a::plus, 'c) externals \<Rightarrow> nat \<Rightarrow> 'a RedactionAnnotation list" where
  "pageMarkers env p = annotations (snd (detectAndRedactFacesFromPage env p blank))"

definition pageCalls :: "('a::plus, 'c) externals \<Rightarrow> nat \<Rightarrow> call list" where
  "pageCalls env p = calls (snd (detectAndRedactFacesFromPage env p blank))"

subsection \<open>Sample inputs\<close>

text \<open>
  A document of \<open>n\<close> letter-sized pages with one face on each page, and collaborators that
  fail on chosen pages.
\<close>

definition sampleDocument ::
  "nat \<Rightarrow> (nat \<Rightarrow> error option) \<Rightarrow> (nat \<Rightarrow> error + (rat Box \<times> rat) list) \<Rightarrow> document" where
  "sampleDocument n failing faces =
     \<lparr>user = ''editor'', pageCount = n,
      pageSize = (\<lambda>p. \<lparr>dim_width = 612, dim_height = 792\<rparr>),
      renderError = failing, found = faces\<rparr>"

definition oneFace :: "(rat Box \<times> rat) list" where
  "oneFace = [(\<lparr>box_x = 10, box_y = 20, box_width = 30, box_height = 40\<rparr>, 9/10)]"

definition sampleDetection :: "rat FaceDetection" where
  "sampleDetection =
     \<lparr>box = \<lparr>box_x = 10, box_y = 20, box_width = 30, box_height = 40\<rparr>, score = 9/10,
      imageDims = \<lparr>dim_width = 306, dim_height = 396\<rparr>\<rparr>"

definition sampleExternals ::
  "nat \<Rightarrow> (nat \<Rightarrow> error option) \<Rightarrow> (nat \<Rightarrow> error option) \<Rightarrow> (rat, nat) externals" where
  "sampleExternals n renderFails detectFails =
     \<lparr>getCurrentUser = ''editor'', getPageCount = n,
      getPageInfo = (\<lambda>p. \<lparr>dim_width = 612, dim_height = 792\<rparr>),
      loadCanvas = (\<lambda>p zoom. case renderFails p of Some e \<Rightarrow> Inl e | None \<Rightarrow> Inr p),
      detectAllFaces = (\<lambda>canvas options.
        case detectFails canvas of Some e \<Rightarrow> Inl e | None \<Rightarrow> Inr [sampleDetection]),
      resizeResults = (\<lambda>detections displaySize. detections)\<rparr>"

definition mixedFaces :: "(rat Box \<times> rat) list" where
  "mixedFaces =
     [(\<lparr>box_x = 10, box_y = 20, box_width = 30, box_height = 40\<rparr>, 9/10),
      (\<lparr>box_x = 100, box_y = 200, box_width = 30, box_height = 40\<rparr>, 3/10)]"

section \<open>Properties\<close>

lemma quadPoints_quadOf:
  "quadPoints (quadOf d) =
     [(box_x (box d), box_y (box d) + box_height (box d)),
      (box_x (box d) + box_width (box d), box_y (box d) + box_height (box d)),
      (box_x (box d) + box_width (box d), box_y (box d)),
      (box_x (box d), box_y (box d))]"
  by (simp add: quadPoints_def quadOf_def Let_def)

subsection \<open>The page pipeline does not depend on the viewer's state\<close>

lemma builder_frame:
  "createFaceRedactionAnnotation env p arg st =
     st\<lparr>annotations := annotations st @ annotations (createFaceRedactionAnnotation env p arg blank),
        calls := calls st @ calls (createFaceRedactionAnnotation env p arg blank)\<rparr>"
  by (cases arg) (simp_all add: blank_def Let_def)

lemma drawComplete_frame:
  "drawComplete env p ds canvas st =
     (fst (drawComplete env p ds canvas blank),
      st\<lparr>annotations := annotations st @ annotations (snd (drawComplete env p ds canvas blank)),
         calls := calls st @ calls (snd (drawComplete env p ds canvas blank))\<rparr>)"
proof (cases "detectAllFaces env (convertCanvasToImage canvas) \<lparr>minConfidence = 2/5, maxResults = 300\<rparr>")
  case (Inl e)
  then show ?thesis by (simp add: drawComplete_def blank_def)
next
  case (Inr detections)
  let ?arg = "Array (resizeResults env detections ds)"
  let ?d = "DetectAllFaces \<lparr>minConfidence = 2/5, maxResults = 300\<rparr>"
  have 1: "drawComplete env p ds canvas st =
      (Resolved, createFaceRedactionAnnotation env p ?arg (st\<lparr>calls := calls st @ [?d]\<rparr>))" for st :: "'a viewer"
    using Inr by (simp add: drawComplete_def)
  show ?thesis
    unfolding 1
    by (simp add: builder_frame [of env p ?arg "st\<lparr>calls := calls st @ [?d]\<rparr>"]
        builder_frame [of env p ?arg "blank\<lparr>calls := calls blank @ [?d]\<rparr>"] blank_def)
qed

lemma page_frame:
  "detectAndRedactFacesFromPage env p st =
     (pageOutcome env p,
      st\<lparr>annotations := annotations st @ pageMarkers env p,
         calls := calls st @ pageCalls env p\<rparr>)"
proof (cases "loadCanvas env p (1/2)")
  case (Inl e)
  then show ?thesis
    by (simp add: pageOutcome_def pageMarkers_def pageCalls_def
        detectAndRedactFacesFromPage_def blank_def)
next
  case (Inr canvas)
  let ?ds = "\<lparr>dim_width = dim_width (getPageInfo env p), dim_height = dim_height (getPageInfo env p)\<rparr>"
  let ?l = "LoadCanvas p (1/2)"
  have 1: "detectAndRedactFacesFromPage env p st =
      drawComplete env p ?ds canvas (st\<lparr>calls := calls st @ [?l]\<rparr>)" for st :: "'a viewer"
    using Inr by (simp add: detectAndRedactFacesFromPage_def Let_def)
  note A = drawComplete_frame [of env p ?ds canvas "st\<lparr>calls := calls st @ [?l]\<rparr>"]
  note B = drawComplete_frame [of env p ?ds canvas "blank\<lparr>calls := calls blank @ [?l]\<rparr>"]
  show ?thesis
    unfolding pageOutcome_def pageMarkers_def pageCalls_def 1
    by (simp only: A B) (simp add: blank_def)
qed

lemma pageCalls_shape:
  "\<exists>rest. pageCalls env p = LoadCanvas p (1/2) # rest \<and> SendPageProcessing \<notin> set rest"
proof (cases "loadCanvas env p (1/2)")
  case (Inl e)
  then show ?thesis
    by (simp add: pageCalls_def detectAndRedactFacesFromPage_def blank_def)
next
  case (Inr canvas)
  show ?thesis
  proof (cases "detectAllFaces env (convertCanvasToImage canvas) \<lparr>minConfidence = 2/5, maxResults = 300\<rparr>")
    case (Inl e)
    with Inr show ?thesis
      by (simp add: pageCalls_def detectAndRedactFacesFromPage_def drawComplete_def blank_def Let_def)
  next
    case det: (Inr detections)
    with Inr show ?thesis
      by (simp add: pageCalls_def detectAndRedactFacesFromPage_def drawComplete_def blank_def Let_def)
  qed
qed

subsection \<open>The trace of a sweep\<close>

lemma sweepFrom_unfold:
  "sweepFrom env n p st =
     (if p \<le> n then
        (case pageOutcome env p of
           Resolved \<Rightarrow> sweepFrom env n (Suc p)
             (st\<lparr>annotations := annotations st @ pageMarkers env p,
                calls := calls st @ SendPageProcessing # pageCalls env p\<rparr>)
         | r \<Rightarrow> (r, st\<lparr>annotations := annotations st @ pageMarkers env p,
                calls := calls st @ SendPageProcessing # pageCalls env p\<rparr>))
      else (Resolved, st))"
  by (subst sweepFrom.simps)
     (simp add: page_frame [of env p "st\<lparr>calls := calls st @ [SendPageProcessing]\<rparr>"]
        split: promise.splits)

lemma sweepFrom_trace:
  "p \<le> Suc n \<Longrightarrow> sweepFrom env n p st = (r, st') \<Longrightarrow>
   \<exists>m. p \<le> Suc m \<and> m \<le> n
     \<and> calls st' = calls st @ concat (map (\<lambda>q. SendPageProcessing # pageCalls env q) [p..<Suc m])
     \<and> annotations st' = annotations st @ concat (map (pageMarkers env) [p..<Suc m])
     \<and> (\<forall>q. p \<le> q \<and> q < m \<longrightarrow> pageOutcome env q = Resolved)
     \<and> (if r = Resolved then m = n else p \<le> m \<and> pageOutcome env m = r)"
proof (induction env n p st arbitrary: r st' rule: sweepFrom.induct)
  case (1 env n p st)
  show ?case
  proof (cases "p \<le> n")
    case False
    with "1.prems" have "p = Suc n" "r = Resolved" "st' = st"
      by (auto simp: sweepFrom_unfold [of env n p st])
    then show ?thesis by (intro exI [of _ n]) auto
  next
    case True
    let ?st1 = "st\<lparr>annotations := annotations st @ pageMarkers env p,
                calls := calls st @ SendPageProcessing # pageCalls env p\<rparr>"
    show ?thesis
    proof (cases "pageOutcome env p = Resolved")
      case False
      with True "1.prems" have "r = pageOutcome env p" "st' = ?st1"
        by (auto simp: sweepFrom_unfold [of env n p st] split: promise.splits)
      with False True show ?thesis by (intro exI [of _ p]) (auto simp del: upt_Suc simp: upt_conv_Cons)
    next
      case res: True
      have pg: "detectAndRedactFacesFromPage env p (st\<lparr>calls := calls st @ [SendPageProcessing]\<rparr>)
          = (Resolved, ?st1)"
        using res by (simp add: page_frame [of env p "st\<lparr>calls := calls st @ [SendPageProcessing]\<rparr>"])
      have rec: "sweepFrom env n (p + 1) ?st1 = (r, st')"
        using True res "1.prems" by (simp add: sweepFrom_unfold [of env n p st])
      from "1.IH" [OF True pg [symmetric] refl _ rec] True
      obtain m where m: "p + 1 \<le> Suc m" "m \<le> n"
        "calls st' = calls ?st1 @ concat (map (\<lambda>q. SendPageProcessing # pageCalls env q) [p + 1..<Suc m])"
        "annotations st' = annotations ?st1 @ concat (map (pageMarkers env) [p + 1..<Suc m])"
        "\<forall>q. p + 1 \<le> q \<and> q < m \<longrightarrow> pageOutcome env q = Resolved"
        "if r = Resolved then m = n else p + 1 \<le> m \<and> pageOutcome env m = r"
        by auto
      have upt: "[p..<Suc m] = p # [p + 1..<Suc m]"
        using m(1) by (simp add: upt_conv_Cons)
      have all: "\<forall>q. p \<le> q \<and> q < m \<longrightarrow> pageOutcome env q = Resolved"
      proof (intro allI impI)
        fix q assume "p \<le> q \<and> q < m"
        then show "pageOutcome env q = Resolved"
          using res m(5) by (cases "q = p") auto
      qed
      show ?thesis
        using m all by (intro exI [of _ m]) (auto simp: upt simp del: upt_Suc split: if_splits)
    qed
  qed
qed

lemma handler_trace:
  assumes "onRedactFacesButtonClick env st = (r, st')"
  shows "\<exists>m\<le>getPageCount env.
     calls st' = calls st @ [CreateProgress (getPageCount env), ShowProgress]
        @ concat (map (\<lambda>q. SendPageProcessing # pageCalls env q) [1..<Suc m])
        @ (if r = Resolved then [HideProgress] else [])
     \<and> annotations st' = annotations st @ concat (map (pageMarkers env) [1..<Suc m])
     \<and> (\<forall>q. 1 \<le> q \<and> q < m \<longrightarrow> pageOutcome env q = Resolved)
     \<and> (if r = Resolved then m = getPageCount env else 1 \<le> m \<and> pageOutcome env m = r)"
proof -
  let ?n = "getPageCount env"
  let ?st1 = "st\<lparr>calls := calls st @ [CreateProgress ?n, ShowProgress]\<rparr>"
  obtain r1 st2 where sw: "sweepFrom env ?n 1 ?st1 = (r1, st2)"
    by (cases "sweepFrom env ?n 1 ?st1")
  have r: "r = r1" and st': "st' = (if r1 = Resolved then st2\<lparr>calls := calls st2 @ [HideProgress]\<rparr> else st2)"
    using assms sw by (auto simp: onRedactFacesButtonClick_def Let_def split: promise.splits)
  from sweepFrom_trace [OF _ sw] obtain m where m: "1 \<le> Suc m" "m \<le> ?n"
    "calls st2 = calls ?st1 @ concat (map (\<lambda>q. SendPageProcessing # pageCalls env q) [1..<Suc m])"
    "annotations st2 = annotations ?st1 @ concat (map (pageMarkers env) [1..<Suc m])"
    "\<forall>q. 1 \<le> q \<and> q < m \<longrightarrow> pageOutcome env q = Resolved"
    "if r1 = Resolved then m = ?n else 1 \<le> m \<and> pageOutcome env m = r1"
    by auto
  show ?thesis
    using m r st' by (intro exI [of _ m]) (auto simp del: upt_Suc split: if_splits)
qed

lemma notifications_count:
  "length (filter (\<lambda>c. c = SendPageProcessing)
      (concat (map (\<lambda>q. SendPageProcessing # pageCalls env q) ps))) = length ps"
proof (induction ps)
  case Nil
  show ?case by simp
next
  case (Cons p ps)
  obtain rest where "pageCalls env p = LoadCanvas p (1/2) # rest" "SendPageProcessing \<notin> set rest"
    using pageCalls_shape by blast
  then have "filter (\<lambda>c. c = SendPageProcessing) (pageCalls env p) = []"
    by (auto simp: filter_empty_conv)
  with Cons show ?case by simp
qed

subsection \<open>The annotation builder\<close>

text \<open>
  C1. For a non-empty array of \<open>k\<close> detections the builder adds exactly one marker to the
  store, for the given page, with \<open>k\<close> quadrilaterals; the points of the \<open>i\<close>-th are, in
  this order, bottom-left \<open>(x, y + height)\<close>, bottom-right \<open>(x + width, y + height)\<close>,
  top-right \<open>(x + width, y)\<close> and top-left \<open>(x, y)\<close> of the \<open>i\<close>-th detection's box.
\<close>

theorem builder_one_marker:
  assumes "faceDetections \<noteq> []"
  shows "\<exists>marker.
      annotations (createFaceRedactionAnnotation env pageNumber (Array faceDetections) st)
        = annotations st @ [marker]
    \<and> PageNumber marker = pageNumber
    \<and> length (Quads marker) = length faceDetections
    \<and> (\<forall>i<length faceDetections.
          quadPoints (Quads marker ! i) =
           (let b = box (faceDetections ! i) in
            [(box_x b, box_y b + box_height b),
             (box_x b + box_width b, box_y b + box_height b),
             (box_x b + box_width b, box_y b),
             (box_x b, box_y b)]))"
  using assms by (simp add: Let_def quadPoints_quadOf)

theorem builder_one_marker_witness:
  "\<exists>marker.
      annotations (createFaceRedactionAnnotation (sampleExternals 1 (\<lambda>p. None) (\<lambda>p. None)) 1
         (Array [sampleDetection]) blank) = [marker]
    \<and> length (Quads marker) = 1
    \<and> quadPoints (Quads marker ! 0) = [(10, 60), (40, 60), (40, 20), (10, 20)]"
  using builder_one_marker [of "[sampleDetection]" "sampleExternals 1 (\<lambda>p. None) (\<lambda>p. None)" 1 blank]
  by (simp add: blank_def sampleDetection_def Let_def)

text \<open>
  C2. For an empty array of detections the builder does nothing: the viewer is returned
  as it was, with no marker added and no call made.
\<close>

theorem builder_empty_noop:
  "createFaceRedactionAnnotation env pageNumber (Array []) st = st"
  by simp

text \<open>
  C10. When the detections argument is \<^verbatim>\<open>undefined\<close> or \<^verbatim>\<open>null\<close> the builder does nothing
  either, exactly as for the empty array; the builder has no failing outcome.
\<close>

theorem builder_absent_noop:
  "createFaceRedactionAnnotation env pageNumber Undefined st = st
   \<and> createFaceRedactionAnnotation env pageNumber Null st = st
   \<and> createFaceRedactionAnnotation env pageNumber Undefined st
       = createFaceRedactionAnnotation env pageNumber (Array []) st
   \<and> createFaceRedactionAnnotation env pageNumber Null st
       = createFaceRedactionAnnotation env pageNumber (Array []) st"
  by simp

subsection \<open>The sweep\<close>

text \<open>
  C6. A sweep processes the pages one after the other in the order \<open>1, 2, ...\<close>: the calls
  it makes are the progress set-up, then for each of the pages \<open>1..m\<close> the progress
  notification immediately followed by that page's calls (which start with its
  rasterization and contain no notification), and the hiding of the progress when the
  sweep resolves. Every page before \<open>m\<close> has resolved and there are \<open>m\<close> notifications.
  A sweep that resolves has \<open>m = getPageCount\<close>; one that does not has stopped at page \<open>m\<close>,
  whose promise ended as the sweep did. When every page resolves, the sweep resolves and
  has processed all \<open>getPageCount\<close> pages, with \<open>getPageCount\<close> notifications.
\<close>

theorem sweep_sequential:
  assumes "onRedactFacesButtonClick env st = (r, st')"
  shows "\<exists>m new. m \<le> getPageCount env
     \<and> calls st' = calls st @ [CreateProgress (getPageCount env), ShowProgress] @ new
          @ (if r = Resolved then [HideProgress] else [])
     \<and> new = concat (map (\<lambda>p. SendPageProcessing # pageCalls env p) [1..<Suc m])
     \<and> (\<forall>p. \<exists>rest. pageCalls env p = LoadCanvas p (1/2) # rest \<and> SendPageProcessing \<notin> set rest)
     \<and> (\<forall>p. 1 \<le> p \<and> p < m \<longrightarrow> pageOutcome env p = Resolved)
     \<and> length (filter (\<lambda>c. c = SendPageProcessing) new) = m
     \<and> (if r = Resolved then m = getPageCount env else 1 \<le> m \<and> pageOutcome env m = r)
     \<and> ((\<forall>p. 1 \<le> p \<and> p \<le> getPageCount env \<longrightarrow> pageOutcome env p = Resolved)
          \<longrightarrow> r = Resolved \<and> m = getPageCount env)"
proof -
  from handler_trace [OF assms] obtain m where m: "m \<le> getPageCount env"
    "calls st' = calls st @ [CreateProgress (getPageCount env), ShowProgress]
        @ concat (map (\<lambda>q. SendPageProcessing # pageCalls env q) [1..<Suc m])
        @ (if r = Resolved then [HideProgress] else [])"
    "\<forall>q. 1 \<le> q \<and> q < m \<longrightarrow> pageOutcome env q = Resolved"
    "if r = Resolved then m = getPageCount env else 1 \<le> m \<and> pageOutcome env m = r"
    by blast
  have cnt: "length (filter (\<lambda>c. c = SendPageProcessing)
      (concat (map (\<lambda>p. SendPageProcessing # pageCalls env p) [1..<Suc m]))) = m"
    by (simp only: notifications_count) simp
  have complete: "(\<forall>p. 1 \<le> p \<and> p \<le> getPageCount env \<longrightarrow> pageOutcome env p = Resolved)
          \<longrightarrow> r = Resolved \<and> m = getPageCount env"
  proof (intro impI)
    assume all: "\<forall>p. 1 \<le> p \<and> p \<le> getPageCount env \<longrightarrow> pageOutcome env p = Resolved"
    show "r = Resolved \<and> m = getPageCount env"
    proof (cases "r = Resolved")
      case True
      with m(4) show ?thesis by simp
    next
      case False
      with m(4) have "1 \<le> m" "pageOutcome env m = r" by simp_all
      with all m(1) False show ?thesis by auto
    qed
  qed
  have shape: "\<forall>p. \<exists>rest. pageCalls env p = LoadCanvas p (1/2) # rest
      \<and> SendPageProcessing \<notin> set rest"
    using pageCalls_shape [of env] by blast
  show ?thesis
    by (intro exI [of _ m]
          exI [of _ "concat (map (\<lambda>p. SendPageProcessing # pageCalls env p) [1..<Suc m])"]
          conjI m(1) m(2) m(3) m(4) refl shape cnt complete)
qed

theorem sweep_sequential_witness:
  "map (pageOutcome (sampleExternals 2 (\<lambda>p. None) (\<lambda>p. None))) [1, 2] = [Resolved, Resolved]
   \<and> fst (onRedactFacesButtonClick (sampleExternals 2 (\<lambda>p. None) (\<lambda>p. None)) blank) = Resolved
   \<and> (\<exists>m new. m = 2
     \<and> calls (snd (onRedactFacesButtonClick (sampleExternals 2 (\<lambda>p. None) (\<lambda>p. None)) blank))
         = [CreateProgress 2, ShowProgress] @ new @ [HideProgress]
     \<and> new = [SendPageProcessing, LoadCanvas 1 (1/2),
          DetectAllFaces \<lparr>minConfidence = 2/5, maxResults = 300\<rparr>,
          AddAnnotation 1, RedrawAnnotation 1,
          SendPageProcessing, LoadCanvas 2 (1/2),
          DetectAllFaces \<lparr>minConfidence = 2/5, maxResults = 300\<rparr>,
          AddAnnotation 2, RedrawAnnotation 2]
     \<and> length (filter (\<lambda>c. c = SendPageProcessing) new) = m)"
proof -
  let ?env = "sampleExternals 2 (\<lambda>p. None) (\<lambda>p. None)"
  let ?R = "onRedactFacesButtonClick ?env blank"
  have pc: "pageCalls ?env p = [LoadCanvas p (1/2),
          DetectAllFaces \<lparr>minConfidence = 2/5, maxResults = 300\<rparr>,
          AddAnnotation p, RedrawAnnotation p]" for p
    by (simp add: pageCalls_def detectAndRedactFacesFromPage_def drawComplete_def
        convertCanvasToImage_def sampleExternals_def blank_def Let_def)
  have po: "pageOutcome ?env p = Resolved" for p
    by (simp add: pageOutcome_def detectAndRedactFacesFromPage_def drawComplete_def
        convertCanvasToImage_def sampleExternals_def blank_def Let_def)
  have n: "getPageCount ?env = 2"
    by (simp add: sampleExternals_def)
  have u: "[1..<Suc 2] = [1, 2]"
    by (simp add: upt_conv_Cons)
  have cb: "calls (blank :: rat viewer) = []"
    by (simp add: blank_def)
  have pr: "?R = (fst ?R, snd ?R)"
    by simp
  from sweep_sequential [OF pr] obtain m new where m:
    "calls (snd ?R) = calls (blank :: rat viewer)
          @ [CreateProgress (getPageCount ?env), ShowProgress] @ new
          @ (if fst ?R = Resolved then [HideProgress] else [])"
    "new = concat (map (\<lambda>p. SendPageProcessing # pageCalls ?env p) [1..<Suc m])"
    "length (filter (\<lambda>c. c = SendPageProcessing) new) = m"
    "(\<forall>p. 1 \<le> p \<and> p \<le> getPageCount ?env \<longrightarrow> pageOutcome ?env p = Resolved)
          \<longrightarrow> fst ?R = Resolved \<and> m = getPageCount ?env"
    by blast
  from m(4) po n have r: "fst ?R = Resolved" and m2: "m = 2"
    by simp_all
  have new: "new = [SendPageProcessing, LoadCanvas 1 (1/2),
          DetectAllFaces \<lparr>minConfidence = 2/5, maxResults = 300\<rparr>,
          AddAnnotation 1, RedrawAnnotation 1,
          SendPageProcessing, LoadCanvas 2 (1/2),
          DetectAllFaces \<lparr>minConfidence = 2/5, maxResults = 300\<rparr>,
          AddAnnotation 2, RedrawAnnotation 2]"
    unfolding m(2) m2 u by (simp add: pc)
  have c: "calls (snd ?R) = [CreateProgress 2, ShowProgress] @ new @ [HideProgress]"
    using m(1) r n cb by simp
  have 1: "map (pageOutcome ?env) [1, 2] = [Resolved, Resolved]"
    using po by simp
  have 3: "\<exists>m new. m = 2
     \<and> calls (snd ?R) = [CreateProgress 2, ShowProgress] @ new @ [HideProgress]
     \<and> new = [SendPageProcessing, LoadCanvas 1 (1/2),
          DetectAllFaces \<lparr>minConfidence = 2/5, maxResults = 300\<rparr>,
          AddAnnotation 1, RedrawAnnotation 1,
          SendPageProcessing, LoadCanvas 2 (1/2),
          DetectAllFaces \<lparr>minConfidence = 2/5, maxResults = 300\<rparr>,
          AddAnnotation 2, RedrawAnnotation 2]
     \<and> length (filter (\<lambda>c. c = SendPageProcessing) new) = m"
    by (intro exI [of _ m] exI [of _ new] conjI m2 c new m(3))
  show ?thesis
    by (intro conjI 1 r 3)
qed

subsection \<open>Failures\<close>

text \<open>
  How a page's promise ends when a collaborator fails: an exception of \<^verbatim>\<open>loadCanvas\<close>
  rejects it, a rejection of \<^verbatim>\<open>detectAllFaces\<close> leaves it pending. Markers committed
  before the sweep stay in the store whatever happens.
\<close>

lemma detect_failure_pending:
  assumes "loadCanvas env p (1/2) = Inr canvas"
    and "detectAllFaces env canvas \<lparr>minConfidence = 2/5, maxResults = 300\<rparr> = Inl e"
  shows "fst (detectAndRedactFacesFromPage env p st) = Pending e"
  using assms
  by (simp add: detectAndRedactFacesFromPage_def drawComplete_def convertCanvasToImage_def Let_def)

lemma render_failure_rejected:
  assumes "loadCanvas env p (1/2) = Inl e"
  shows "fst (detectAndRedactFacesFromPage env p st) = Rejected e"
  using assms by (simp add: detectAndRedactFacesFromPage_def Let_def)

lemma handler_keeps_markers:
  assumes "onRedactFacesButtonClick env st = (r, st')"
  shows "take (length (annotations st)) (annotations st') = annotations st"
  using handler_trace [OF assms] by auto

text \<open>
  The specification's example holds when the rasterizer throws: in a document of three
  pages whose second page cannot be rasterized, the first page's marker is committed,
  the third page is not begun, and the handler's promise is rejected with
  \<open>RenderFailure\<close>.
\<close>

lemma handler_render_failure:
  "onRedactFacesButtonClick
     (sampleExternals 3 (\<lambda>p. if p = 2 then Some RenderFailure else None) (\<lambda>p. None)) blank
   = (Rejected RenderFailure,
      \<lparr>annotations = [\<lparr>Quads = [Quad 10 60 40 60 40 20 10 20], Author = ''editor'',
          PageNumber = 1, StrokeColor = Color 255 0 0 1\<rparr>],
       calls = [CreateProgress 3, ShowProgress,
          SendPageProcessing, LoadCanvas 1 (1/2),
          DetectAllFaces \<lparr>minConfidence = 2/5, maxResults = 300\<rparr>,
          AddAnnotation 1, RedrawAnnotation 1,
          SendPageProcessing, LoadCanvas 2 (1/2)]\<rparr>)"
  by (simp add: onRedactFacesButtonClick_def sweepFrom.simps detectAndRedactFacesFromPage_def
      drawComplete_def convertCanvasToImage_def sampleExternals_def blank_def Let_def quadOf_def
      sampleDetection_def)

text \<open>
  C4. The claim says that a failure of any stage reaches the invoking action and aborts
  the sweep. Evaluated on a document of three pages whose second page makes the detector
  fail: the first page's marker is committed and the third page is not begun, but the
  handler's promise is not rejected with \<open>DetectionFailure\<close>; it stays pending, and the
  progress is never hidden.
\<close>

theorem handler_detection_failure:
  "onRedactFacesButtonClick
     (sampleExternals 3 (\<lambda>p. None) (\<lambda>p. if p = 2 then Some DetectionFailure else None)) blank
   = (Pending DetectionFailure,
      \<lparr>annotations = [\<lparr>Quads = [Quad 10 60 40 60 40 20 10 20], Author = ''editor'',
          PageNumber = 1, StrokeColor = Color 255 0 0 1\<rparr>],
       calls = [CreateProgress 3, ShowProgress,
          SendPageProcessing, LoadCanvas 1 (1/2),
          DetectAllFaces \<lparr>minConfidence = 2/5, maxResults = 300\<rparr>,
          AddAnnotation 1, RedrawAnnotation 1,
          SendPageProcessing, LoadCanvas 2 (1/2),
          DetectAllFaces \<lparr>minConfidence = 2/5, maxResults = 300\<rparr>]\<rparr>)"
  by (simp add: onRedactFacesButtonClick_def sweepFrom.simps detectAndRedactFacesFromPage_def
      drawComplete_def convertCanvasToImage_def sampleExternals_def blank_def Let_def quadOf_def
      sampleDetection_def)

subsection \<open>The model load\<close>

text \<open>The script starts the model load once, whatever happens afterwards.\<close>

lemma occur_modelLoadsStarted:
  "modelLoadsStarted (occur world s occ) = modelLoadsStarted s"
  by (cases occ) (simp_all split: prod.splits)

lemma run_modelLoadsStarted:
  "modelLoadsStarted (run world occs) = 1"
proof -
  have "modelLoadsStarted (foldl (occur world) s occs) = modelLoadsStarted s" for s
    by (induction occs arbitrary: s) (simp_all add: occur_modelLoadsStarted)
  then show ?thesis
    by (simp add: run_def startup_def)
qed

text \<open>A click after the model load has completed: the sweep resolves.\<close>

lemma click_after_model_loaded:
  "outcomes (run (specExternals (sampleDocument 1 (\<lambda>p. None) (\<lambda>p. Inr oneFace)))
      [ModelLoadCompletes, ViewerReady, ButtonClick]) = [Resolved]"
  by (simp add: run_def startup_def onRedactFacesButtonClick_def sweepFrom.simps
      detectAndRedactFacesFromPage_def drawComplete_def convertCanvasToImage_def
      specExternals_def specLoadCanvas_def specDetectAllFaces_def specResizeResults_def
      sampleDocument_def oneFace_def Let_def)

text \<open>
  C5. The claim says that the model load is awaited before any page is processed, so
  that the detector is never called on a model that is not loaded. Evaluated on a click
  that comes after the viewer is ready and before the model load completes, on a
  document of one page: the detector is called while \<open>modelLoaded\<close> is false, fails with
  \<open>ModelNotReady\<close>, and the handler's promise stays pending.
\<close>

theorem click_before_model_loaded:
  "run (specExternals (sampleDocument 1 (\<lambda>p. None) (\<lambda>p. Inr oneFace))) [ViewerReady, ButtonClick]
   = \<lparr>modelLoadsStarted = 1, modelLoaded = False, buttonRegistered = True,
      view = \<lparr>annotations = [],
        calls = [CreateProgress 1, ShowProgress, SendPageProcessing, LoadCanvas 1 (1/2),
          DetectAllFaces \<lparr>minConfidence = 2/5, maxResults = 300\<rparr>]\<rparr>,
      outcomes = [Pending ModelNotReady]\<rparr>"
  by (simp add: run_def startup_def onRedactFacesButtonClick_def sweepFrom.simps
      detectAndRedactFacesFromPage_def drawComplete_def convertCanvasToImage_def
      specExternals_def specLoadCanvas_def specDetectAllFaces_def sampleDocument_def Let_def)

subsection \<open>Rescaling and filtering, with the collaborators of the specification\<close>

lemma specLoadCanvas_Inr:
  assumes "loadCanvas (specExternals doc loaded) p zoom = Inr canvas"
  shows "canvas = \<lparr>rasterPage = p,
      rasterDims = \<lparr>dim_width = zoom * dim_width (pageSize doc p),
                    dim_height = zoom * dim_height (pageSize doc p)\<rparr>\<rparr>"
  using assms by (simp add: specExternals_def specLoadCanvas_def split: option.splits)

lemma specDetectAllFaces_imageDims:
  assumes "detectAllFaces (specExternals doc loaded) canvas options = Inr detections"
    and "d \<in> set detections"
  shows "imageDims d = rasterDims canvas"
  using assms
  by (auto simp: specExternals_def specDetectAllFaces_def split: if_splits sum.splits
      dest!: in_set_takeD)

lemma specResizeResults_zoom:
  assumes "\<forall>d\<in>set detections. dim_width (imageDims d) = zoom * dim_width displaySize"
    and "dim_width displaySize \<noteq> 0"
  shows "specResizeResults detections displaySize
    = map (\<lambda>d. d\<lparr>box := resizeBox zoom (box d), imageDims := displaySize\<rparr>) detections"
  using assms by (simp add: specResizeResults_def)

lemma detect_calls_options:
  "DetectAllFaces options \<in> set (pageCalls env p)
    \<Longrightarrow> options = \<lparr>minConfidence = 2/5, maxResults = 300\<rparr>"
proof (cases "loadCanvas env p (1/2)")
  case (Inl e)
  then show "DetectAllFaces options \<in> set (pageCalls env p)
    \<Longrightarrow> options = \<lparr>minConfidence = 2/5, maxResults = 300\<rparr>"
    by (simp add: pageCalls_def detectAndRedactFacesFromPage_def blank_def)
next
  case (Inr canvas)
  then show "DetectAllFaces options \<in> set (pageCalls env p)
    \<Longrightarrow> options = \<lparr>minConfidence = 2/5, maxResults = 300\<rparr>"
    by (cases "detectAllFaces env (convertCanvasToImage canvas) \<lparr>minConfidence = 2/5, maxResults = 300\<rparr>")
       (auto simp: pageCalls_def detectAndRedactFacesFromPage_def drawComplete_def blank_def Let_def
          split: if_splits)
qed

text \<open>
  C3. With the collaborators of the specification, on a page of non-zero width whose
  rasterization and detection succeed, the pipeline hands to the builder every
  raster-space detection with each of \<open>x\<close>, \<open>y\<close>, \<open>width\<close>, \<open>height\<close> divided by the zoom
  factor \<open>1/2\<close> of the rasterization. The witness is the box \<open>{10, 20, 30, 40}\<close>, which
  becomes \<open>{20, 40, 60, 80}\<close>. The arithmetic is exact (rationals).
\<close>

theorem pipeline_divides_by_zoom:
  assumes "loadCanvas (specExternals doc loaded) p (1/2) = Inr canvas"
    and "detectAllFaces (specExternals doc loaded) canvas
           \<lparr>minConfidence = 2/5, maxResults = 300\<rparr> = Inr detections"
    and "dim_width (pageSize doc p) \<noteq> 0"
  shows "detectAndRedactFacesFromPage (specExternals doc loaded) p st =
      (Resolved, createFaceRedactionAnnotation (specExternals doc loaded) p
         (Array (map (\<lambda>d. d\<lparr>box := resizeBox (1/2) (box d), imageDims := pageSize doc p\<rparr>)
                   detections))
         (st\<lparr>calls := calls st @ [LoadCanvas p (1/2),
                 DetectAllFaces \<lparr>minConfidence = 2/5, maxResults = 300\<rparr>]\<rparr>))"
proof -
  let ?env = "specExternals doc loaded"
  have info: "getPageInfo ?env p = pageSize doc p"
    by (simp add: specExternals_def)
  have rs: "resizeResults ?env = specResizeResults"
    by (simp add: specExternals_def)
  have ds: "\<lparr>dim_width = dim_width (pageSize doc p), dim_height = dim_height (pageSize doc p)\<rparr>
      = pageSize doc p"
    by simp
  have dims: "\<forall>d\<in>set detections. dim_width (imageDims d) = (1/2) * dim_width (pageSize doc p)"
    using specDetectAllFaces_imageDims [OF assms(2)] specLoadCanvas_Inr [OF assms(1)] by simp
  have "specResizeResults detections (pageSize doc p)
      = map (\<lambda>d. d\<lparr>box := resizeBox (1/2) (box d), imageDims := pageSize doc p\<rparr>) detections"
    by (rule specResizeResults_zoom [OF dims assms(3)])
  then show ?thesis
    using assms(1,2)
    by (simp add: detectAndRedactFacesFromPage_def drawComplete_def convertCanvasToImage_def
        Let_def info rs ds del: createFaceRedactionAnnotation.simps)
qed

theorem pipeline_divides_by_zoom_witness:
  "resizeBox (1/2) \<lparr>box_x = 10, box_y = 20, box_width = 30, box_height = 40\<rparr>
     = \<lparr>box_x = 20, box_y = 40, box_width = 60, box_height = 80\<rparr>
   \<and> detectAndRedactFacesFromPage
       (specExternals (sampleDocument 1 (\<lambda>p. None) (\<lambda>p. Inr oneFace)) True) 1 blank
     = (Resolved,
        \<lparr>annotations = [\<lparr>Quads = [Quad 20 120 80 120 80 40 20 40], Author = ''editor'',
            PageNumber = 1, StrokeColor = Color 255 0 0 1\<rparr>],
         calls = [LoadCanvas 1 (1/2), DetectAllFaces \<lparr>minConfidence = 2/5, maxResults = 300\<rparr>,
            AddAnnotation 1, RedrawAnnotation 1]\<rparr>)"
proof -
  let ?doc = "sampleDocument 1 (\<lambda>p. None) (\<lambda>p. Inr oneFace)"
  let ?canvas = "\<lparr>rasterPage = 1, rasterDims = \<lparr>dim_width = 306, dim_height = 396\<rparr>\<rparr>"
  let ?d = "\<lparr>box = \<lparr>box_x = 10, box_y = 20, box_width = 30, box_height = 40\<rparr>, score = 9/10,
      imageDims = \<lparr>dim_width = 306, dim_height = 396\<rparr>\<rparr>"
  have 1: "loadCanvas (specExternals ?doc True) 1 (1/2) = Inr ?canvas"
    by (simp add: specExternals_def specLoadCanvas_def sampleDocument_def)
  have 2: "detectAllFaces (specExternals ?doc True) ?canvas
      \<lparr>minConfidence = 2/5, maxResults = 300\<rparr> = Inr [?d]"
    by (simp add: specExternals_def specDetectAllFaces_def sampleDocument_def oneFace_def)
  have 3: "dim_width (pageSize ?doc 1) \<noteq> 0"
    by (simp add: sampleDocument_def)
  have u: "getCurrentUser (specExternals (sampleDocument n failing faces) True) = ''editor''"
    for n failing faces
    by (simp add: specExternals_def sampleDocument_def)
  note page = pipeline_divides_by_zoom [OF 1 2 3, of blank]
  show ?thesis
    unfolding page by (simp add: resizeBox_def quadOf_def blank_def u Let_def)
qed

text \<open>
  C9. With the collaborators of the specification, on a page whose rasterization and
  detection succeed: the detector is called with minimum confidence \<open>2/5\<close> and at most
  \<open>300\<close> results, and with no other options by any page. The list handed to the builder
  is the resize of exactly the first \<open>300\<close> candidates whose confidence is at least \<open>2/5\<close>,
  in their order, each with its own box and confidence; the marker committed has the
  quads of that list and of nothing else, and no candidate below the minimum is in it.
\<close>

theorem low_confidence_excluded:
  assumes "renderError doc p = None" and "found doc p = Inr candidates"
  shows "let kept = take 300 (filter (\<lambda>c. 2/5 \<le> snd c) candidates);
             passed = specResizeResults
               (map (\<lambda>(b, s). \<lparr>box = b, score = s,
                  imageDims = \<lparr>dim_width = 1/2 * dim_width (pageSize doc p),
                               dim_height = 1/2 * dim_height (pageSize doc p)\<rparr>\<rparr>) kept)
               (pageSize doc p)
         in detectAndRedactFacesFromPage (specExternals doc True) p st =
              (Resolved, createFaceRedactionAnnotation (specExternals doc True) p (Array passed)
                 (st\<lparr>calls := calls st @ [LoadCanvas p (1/2),
                         DetectAllFaces \<lparr>minConfidence = 2/5, maxResults = 300\<rparr>]\<rparr>))
          \<and> annotations (snd (detectAndRedactFacesFromPage (specExternals doc True) p st)) =
              annotations st @
                (if passed = [] then []
                 else [\<lparr>Quads = map quadOf passed, Author = user doc, PageNumber = p,
                         StrokeColor = Color 255 0 0 1\<rparr>])
          \<and> map score passed = map snd kept
          \<and> (\<forall>d\<in>set passed. 2/5 \<le> score d)
          \<and> (\<forall>c\<in>set candidates. snd c < 2/5 \<longrightarrow> c \<notin> set kept)
          \<and> (\<forall>options. DetectAllFaces options \<in> set (pageCalls (specExternals doc True) p)
                \<longrightarrow> options = \<lparr>minConfidence = 2/5, maxResults = 300\<rparr>)"
proof -
  let ?env = "specExternals doc True"
  let ?opts = "\<lparr>minConfidence = 2/5, maxResults = 300\<rparr>"
  let ?dims = "\<lparr>dim_width = 1/2 * dim_width (pageSize doc p),
                 dim_height = 1/2 * dim_height (pageSize doc p)\<rparr>"
  let ?canvas = "\<lparr>rasterPage = p, rasterDims = ?dims\<rparr>"
  let ?mk = "\<lambda>(b, s). \<lparr>box = b, score = s, imageDims = ?dims\<rparr>"
  let ?kept = "take 300 (filter (\<lambda>c. 2/5 \<le> snd c) candidates)"
  let ?passed = "specResizeResults (map ?mk ?kept) (pageSize doc p)"
  have lc: "loadCanvas ?env p (1/2) = Inr ?canvas"
    using assms(1) by (simp add: specExternals_def specLoadCanvas_def)
  have flt: "filter (\<lambda>d. 2/5 \<le> score d) (map ?mk cs) = map ?mk (filter (\<lambda>c. 2/5 \<le> snd c) cs)"
    for cs :: "(rat Box \<times> rat) list"
    by (induction cs) auto
  have "detectAllFaces ?env ?canvas ?opts
      = Inr (take 300 (filter (\<lambda>d. 2/5 \<le> score d) (map ?mk candidates)))"
    using assms(2) by (simp add: specExternals_def specDetectAllFaces_def)
  then have det: "detectAllFaces ?env ?canvas ?opts = Inr (map ?mk ?kept)"
    by (simp only: flt take_map)
  have info: "getPageInfo ?env p = pageSize doc p" and rs: "resizeResults ?env = specResizeResults"
    and usr: "getCurrentUser ?env = user doc"
    by (simp_all add: specExternals_def)
  have ds: "\<lparr>dim_width = dim_width (pageSize doc p), dim_height = dim_height (pageSize doc p)\<rparr>
      = pageSize doc p"
    by simp
  have page: "detectAndRedactFacesFromPage ?env p st =
      (Resolved, createFaceRedactionAnnotation ?env p (Array ?passed)
         (st\<lparr>calls := calls st @ [LoadCanvas p (1/2), DetectAllFaces ?opts]\<rparr>))"
    using lc det
    by (simp add: detectAndRedactFacesFromPage_def drawComplete_def convertCanvasToImage_def
        Let_def info rs ds del: createFaceRedactionAnnotation.simps)
  have store: "annotations (snd (detectAndRedactFacesFromPage ?env p st)) =
      annotations st @
        (if ?passed = [] then []
         else [\<lparr>Quads = map quadOf ?passed, Author = user doc, PageNumber = p,
                 StrokeColor = Color 255 0 0 1\<rparr>])"
    unfolding page by (simp add: usr Let_def)
  have sc: "map score ?passed = map snd ?kept"
    by (simp add: specResizeResults_def comp_def case_prod_beta)
  have all: "\<forall>d\<in>set ?passed. 2/5 \<le> score d"
  proof
    fix d assume "d \<in> set ?passed"
    then have "score d \<in> set (map score ?passed)" by simp
    then have "score d \<in> snd ` set ?kept" unfolding sc by simp
    then obtain c where "c \<in> set ?kept" "score d = snd c" by auto
    moreover from this(1) have "c \<in> set (filter (\<lambda>c. 2/5 \<le> snd c) candidates)"
      by (rule in_set_takeD)
    ultimately show "2/5 \<le> score d" by simp
  qed
  have excl: "\<forall>c\<in>set candidates. snd c < 2/5 \<longrightarrow> c \<notin> set ?kept"
  proof (intro ballI impI notI)
    fix c assume "snd c < 2/5" "c \<in> set ?kept"
    from this(2) have "c \<in> set (filter (\<lambda>c. 2/5 \<le> snd c) candidates)"
      by (rule in_set_takeD)
    with \<open>snd c < 2/5\<close> show False by simp
  qed
  have opts: "\<forall>options. DetectAllFaces options \<in> set (pageCalls ?env p) \<longrightarrow> options = ?opts"
    using detect_calls_options [of _ ?env p] by blast
  show ?thesis
    unfolding Let_def by (intro conjI page store sc all excl opts)
qed

theorem low_confidence_excluded_witness:
  "take 300 (filter (\<lambda>c. 2/5 \<le> snd c) mixedFaces)
     = [(\<lparr>box_x = 10, box_y = 20, box_width = 30, box_height = 40\<rparr>, 9/10)]
   \<and> annotations (snd (detectAndRedactFacesFromPage
        (specExternals (sampleDocument 1 (\<lambda>p. None) (\<lambda>p. Inr mixedFaces)) True) 1 blank))
     = [\<lparr>Quads = [Quad 20 120 80 120 80 40 20 40], Author = ''editor'', PageNumber = 1,
          StrokeColor = Color 255 0 0 1\<rparr>]"
proof -
  let ?doc = "sampleDocument 1 (\<lambda>p. None) (\<lambda>p. Inr mixedFaces)"
  have 1: "renderError ?doc 1 = None" and 2: "found ?doc 1 = Inr mixedFaces"
    by (simp_all add: sampleDocument_def)
  have k: "take 300 (filter (\<lambda>c. 2/5 \<le> snd c) mixedFaces)
     = [(\<lparr>box_x = 10, box_y = 20, box_width = 30, box_height = 40\<rparr>, 9/10)]"
    by (simp add: mixedFaces_def)
  have sz: "pageSize ?doc 1 = \<lparr>dim_width = 612, dim_height = 792\<rparr>" and us: "user ?doc = ''editor''"
    by (simp_all add: sampleDocument_def)
  let ?passed = "specResizeResults
      (map (\<lambda>(b, s). \<lparr>box = b, score = s,
          imageDims = \<lparr>dim_width = 1/2 * dim_width (pageSize ?doc 1),
                       dim_height = 1/2 * dim_height (pageSize ?doc 1)\<rparr>\<rparr>)
        (take 300 (filter (\<lambda>c. 2/5 \<le> snd c) mixedFaces)))
      (pageSize ?doc 1)"
  have pv: "?passed = [\<lparr>box = \<lparr>box_x = 20, box_y = 40, box_width = 60, box_height = 80\<rparr>,
      score = 9/10, imageDims = \<lparr>dim_width = 612, dim_height = 792\<rparr>\<rparr>]"
    unfolding k sz by (simp add: specResizeResults_def resizeBox_def)
  from low_confidence_excluded [OF 1 2, of blank]
  have st: "annotations (snd (detectAndRedactFacesFromPage (specExternals ?doc True) 1 blank)) =
      annotations (blank :: rat viewer) @
        (if ?passed = [] then []
         else [\<lparr>Quads = map quadOf ?passed, Author = user ?doc, PageNumber = 1,
                 StrokeColor = Color 255 0 0 1\<rparr>])"
    unfolding Let_def by (elim conjE)
  have "annotations (snd (detectAndRedactFacesFromPage (specExternals ?doc True) 1 blank))
     = [\<lparr>Quads = [Quad 20 120 80 120 80 40 20 40], Author = ''editor'', PageNumber = 1,
          StrokeColor = Color 255 0 0 1\<rparr>]"
    unfolding st pv us by (simp add: quadOf_def blank_def)
  with k show ?thesis
    by (intro conjI)
qed

text \<open>
  C8, as stated: \<open>resized.box / zoomFactor = original.box\<close>. It fails for the box
  \<open>{10, 20, 30, 40}\<close> detected in an image of width \<open>306\<close> and resized for a page of
  width \<open>612\<close> (zoom factor \<open>1/2\<close>): the resized box is \<open>{20, 40, 60, 80}\<close>, and dividing
  it by \<open>1/2\<close> gives \<open>{40, 80, 120, 160}\<close>.
\<close>

theorem resized_over_zoom_counterexample:
  "map (\<lambda>resized. resizeBox (1/2) (box resized))
       (specResizeResults [sampleDetection] \<lparr>dim_width = 612, dim_height = 792\<rparr>)
     \<noteq> [box sampleDetection]"
  by (simp add: specResizeResults_def resizeBox_def sampleDetection_def)

text \<open>
  C8, amended: for a detection and its resized counterpart produced at a zoom factor
  other than zero, \<open>resized.box * zoomFactor = original.box\<close>, in exact arithmetic.
\<close>

theorem resized_times_zoom:
  assumes "zoomFactor = dim_width (imageDims original) / dim_width displaySize"
    and "zoomFactor \<noteq> 0"
  shows "map (\<lambda>resized.
          \<lparr>box_x = box_x (box resized) * zoomFactor, box_y = box_y (box resized) * zoomFactor,
           box_width = box_width (box resized) * zoomFactor,
           box_height = box_height (box resized) * zoomFactor\<rparr>)
        (specResizeResults [original] displaySize)
     = [box original]"
  using assms by (simp add: specResizeResults_def resizeBox_def)

theorem resized_times_zoom_witness:
  "map (\<lambda>resized.
          \<lparr>box_x = box_x (box resized) * (1/2), box_y = box_y (box resized) * (1/2),
           box_width = box_width (box resized) * (1/2),
           box_height = box_height (box resized) * (1/2)\<rparr>)
        (specResizeResults [sampleDetection] \<lparr>dim_width = 612, dim_height = 792\<rparr>)
     = [\<lparr>box_x = 10, box_y = 20, box_width = 30, box_height = 40\<rparr>]"
proof -
  have z: "(1/2 :: rat) = dim_width (imageDims sampleDetection)
      / dim_width \<lparr>dim_width = 612, dim_height = 792 :: rat\<rparr>"
    by (simp add: sampleDetection_def)
  have nz: "(1/2 :: rat) \<noteq> 0" by simp
  have b: "box sampleDetection = \<lparr>box_x = 10, box_y = 20, box_width = 30, box_height = 40\<rparr>"
    by (simp add: sampleDetection_def)
  show ?thesis
    using resized_times_zoom [OF z nz] unfolding b .
qed

text \<open>
  One rescaling there and back with a rounding of relative error at most \<open>u\<close> after each
  of the two operations.
\<close>

lemma rounded_round_trip:
  fixes x z u :: rat
  assumes z: "0 < z" and u: "0 \<le> u" and rnd: "\<forall>x. \<bar>rnd x - x\<bar> \<le> u * \<bar>x\<bar>"
  shows "\<bar>rnd (rnd (x / z) / (1 / z)) - x\<bar> \<le> (2 * u + u * u) * \<bar>x\<bar>"
proof -
  let ?y = "rnd (x / z)"
  have a: "\<bar>?y - x / z\<bar> \<le> u * \<bar>x / z\<bar>"
    using rnd by blast
  have "\<bar>?y * z - x\<bar> = \<bar>?y - x / z\<bar> * z"
  proof -
    have "?y * z - x = (?y - x / z) * z"
      using z by (simp add: algebra_simps)
    then show ?thesis
      using z by (simp add: abs_mult)
  qed
  also have "\<dots> \<le> (u * \<bar>x / z\<bar>) * z"
    by (rule mult_right_mono [OF a]) (use z in simp)
  also have "\<dots> = u * \<bar>x\<bar>"
    using z by (simp add: abs_divide)
  finally have b: "\<bar>?y * z - x\<bar> \<le> u * \<bar>x\<bar>" .
  have "\<bar>?y * z\<bar> \<le> \<bar>?y * z - x\<bar> + \<bar>x\<bar>"
    by simp
  with b have c: "\<bar>?y * z\<bar> \<le> u * \<bar>x\<bar> + \<bar>x\<bar>"
    by simp
  have d: "\<bar>rnd (?y * z) - ?y * z\<bar> \<le> u * \<bar>?y * z\<bar>"
    using rnd by blast
  have "u * \<bar>?y * z\<bar> \<le> u * (u * \<bar>x\<bar> + \<bar>x\<bar>)"
    using c u by (rule mult_left_mono)
  with d have e: "\<bar>rnd (?y * z) - ?y * z\<bar> \<le> u * (u * \<bar>x\<bar> + \<bar>x\<bar>)"
    by simp
  have "\<bar>rnd (?y * z) - x\<bar> \<le> \<bar>rnd (?y * z) - ?y * z\<bar> + \<bar>?y * z - x\<bar>"
    by simp
  with e b have "\<bar>rnd (?y * z) - x\<bar> \<le> u * (u * \<bar>x\<bar> + \<bar>x\<bar>) + u * \<bar>x\<bar>"
    by simp
  also have "\<dots> = (2 * u + u * u) * \<bar>x\<bar>"
    by (simp add: algebra_simps)
  finally show ?thesis
    by simp
qed

text \<open>
  C7. For every zoom factor \<open>z\<close> in \<open>(0, 1]\<close> and every box \<open>b\<close>, rescaling \<open>b\<close> by \<open>1/z\<close>
  (dividing by \<open>z\<close>) and then by \<open>z\<close> (dividing by \<open>1/z\<close>) returns \<open>b\<close>: exactly in exact
  arithmetic, and, when each operation is rounded with relative error at most \<open>u\<close>,
  within \<open>(2u + u\<^sup>2) |c|\<close> of each coordinate and dimension \<open>c\<close> of \<open>b\<close>.
\<close>

theorem rescale_round_trip:
  assumes "0 < z" and "z \<le> 1" and "0 \<le> u" and "\<forall>x. \<bar>rnd x - x\<bar> \<le> u * \<bar>x\<bar>"
  shows "resizeBox (1 / z) (resizeBox z b) = b
    \<and> (let r = roundedResizeBox rnd (1 / z) (roundedResizeBox rnd z b) in
         \<bar>box_x r - box_x b\<bar> \<le> (2 * u + u * u) * \<bar>box_x b\<bar>
       \<and> \<bar>box_y r - box_y b\<bar> \<le> (2 * u + u * u) * \<bar>box_y b\<bar>
       \<and> \<bar>box_width r - box_width b\<bar> \<le> (2 * u + u * u) * \<bar>box_width b\<bar>
       \<and> \<bar>box_height r - box_height b\<bar> \<le> (2 * u + u * u) * \<bar>box_height b\<bar>)"
proof -
  have exact: "resizeBox (1 / z) (resizeBox z b) = b"
    using assms(1) by (simp add: resizeBox_def)
  note rt = rounded_round_trip [OF assms(1) assms(3) assms(4)]
  show ?thesis
    using exact rt [of "box_x b"] rt [of "box_y b"] rt [of "box_width b"] rt [of "box_height b"]
    by (simp add: roundedResizeBox_def Let_def)
qed

theorem rescale_round_trip_witness:
  "resizeBox (1 / (1/2)) (resizeBox (1/2) \<lparr>box_x = 10, box_y = 20, box_width = 30, box_height = 40\<rparr>)
     = \<lparr>box_x = 10, box_y = 20, box_width = 30, box_height = 40\<rparr>
   \<and> roundedResizeBox (\<lambda>x. x * (1001/1000)) (1 / (1/2))
        (roundedResizeBox (\<lambda>x. x * (1001/1000)) (1/2)
           \<lparr>box_x = 10, box_y = 20, box_width = 30, box_height = 40\<rparr>)
     = \<lparr>box_x = 1002001/100000, box_y = 1002001/50000, box_width = 3006003/100000,
        box_height = 1002001/25000\<rparr>
   \<and> \<bar>1002001/100000 - 10\<bar> \<le> (2 * (1/1000) + (1/1000) * (1/1000)) * \<bar>10 :: rat\<bar>"
proof -
  let ?rnd = "\<lambda>x :: rat. x * (1001/1000)"
  let ?b = "\<lparr>box_x = 10, box_y = 20, box_width = 30, box_height = 40 :: rat\<rparr>"
  have 1: "(0 :: rat) < 1/2" and 2: "(1/2 :: rat) \<le> 1" and 3: "(0 :: rat) \<le> 1/1000"
    by simp_all
  have 4: "\<forall>x. \<bar>?rnd x - x\<bar> \<le> (1/1000) * \<bar>x\<bar>"
  proof
    fix x :: rat
    have "?rnd x - x = x * (1/1000)"
      by (simp add: algebra_simps)
    then show "\<bar>?rnd x - x\<bar> \<le> (1/1000) * \<bar>x\<bar>"
      by (simp add: abs_mult)
  qed
  have v: "roundedResizeBox ?rnd (1 / (1/2)) (roundedResizeBox ?rnd (1/2) ?b)
     = \<lparr>box_x = 1002001/100000, box_y = 1002001/50000, box_width = 3006003/100000,
        box_height = 1002001/25000\<rparr>"
    by (simp add: roundedResizeBox_def)
  from rescale_round_trip [OF 1 2 3 4, of ?b]
  have t: "resizeBox (1 / (1/2)) (resizeBox (1/2) ?b) = ?b"
    and bx: "\<bar>box_x (roundedResizeBox ?rnd (1 / (1/2)) (roundedResizeBox ?rnd (1/2) ?b)) - box_x ?b\<bar>
       \<le> (2 * (1/1000) + (1/1000) * (1/1000)) * \<bar>box_x ?b\<bar>"
    by (simp_all only: Let_def)
  from bx have "\<bar>1002001/100000 - 10\<bar> \<le> (2 * (1/1000) + (1/1000) * (1/1000)) * \<bar>10 :: rat\<bar>"
    unfolding v by simp
  with t v show ?thesis
    by (intro conjI)
qed

end
